theory Spec2Isabelle
  imports Complex_Main
begin

section \<open>The grid engine of natural-grid: data model\<close>

text \<open>
  The embedding follows the module that defines the custom element \<^verbatim>\<open><natural-grid>\<close>
  (class \<^verbatim>\<open>NaturalGrid\<close> and the module-level helpers around it). JavaScript strings are
  modelled as \<^typ>\<open>string\<close>, one character per code unit in the Latin-1 range; numbers that
  the code only compares and clamps are \<^typ>\<open>real\<close> (finite values, on which
  \<^verbatim>\<open>Math.max\<close> and \<^verbatim>\<open>>\<close> are exact); a property that may be \<^verbatim>\<open>undefined\<close> or
  \<^verbatim>\<open>null\<close> is an \<^typ>\<open>'a option\<close>.
\<close>

subsection \<open>Strings\<close>

text \<open>\<^verbatim>\<open>String.prototype.trim\<close>: white space and line terminators are removed at both ends.\<close>

definition is_ws :: "char \<Rightarrow> bool" where
  "is_ws c = ((of_char c :: nat) \<in> {9, 10, 11, 12, 13, 32, 160})"

definition trim :: "string \<Rightarrow> string" where
  "trim s = rev (dropWhile is_ws (rev (dropWhile is_ws s)))"

text \<open>\<^verbatim>\<open>String.prototype.toLowerCase\<close> on Latin-1 code units.\<close>

definition lower_char :: "char \<Rightarrow> char" where
  "lower_char c =
     (let n = (of_char c :: nat)
      in if (65 \<le> n \<and> n \<le> 90) \<or> (192 \<le> n \<and> n \<le> 222 \<and> n \<noteq> 215)
         then char_of (n + 32) else c)"

definition toLowerCase :: "string \<Rightarrow> string" where
  "toLowerCase s = map lower_char s"

text \<open>The decimal rendering of a non-negative integer inside a template literal.\<close>

fun string_of_nat :: "nat \<Rightarrow> string" where
  "string_of_nat n =
     (if n < 10 then [''0123456789'' ! n]
      else string_of_nat (n div 10) @ [''0123456789'' ! (n mod 10)])"

text \<open>The operator \<^verbatim>\<open>??\<close>: the right operand stands in for \<^verbatim>\<open>undefined\<close> and \<^verbatim>\<open>null\<close>.\<close>

definition nullish :: "'a option \<Rightarrow> 'a \<Rightarrow> 'a" where
  "nullish v d = (case v of None \<Rightarrow> d | Some x \<Rightarrow> x)"

subsection \<open>Columns, rows, the model\<close>

text \<open>\<^verbatim>\<open>NaturalGridColumn\<close>, \<^verbatim>\<open>NaturalGridRow\<close> and \<^verbatim>\<open>NaturalGridModel\<close>.\<close>

record column =
  key :: string
  title :: string
  widthPx :: "real option"
  align :: "string option"

datatype row = Row (rid: string) (cells: "(string \<times> string) list") (children: "row list")

datatype status = Init | Loading | Ready | Error

record model =
  columns :: "column list"
  rows :: "row list"
  sort_order :: "string list"
  filters :: "string list"
  status :: status
  error :: string

text \<open>The snapshot object of a data source, of a fetch response or of a stream message.\<close>

record snapshot =
  snap_columns :: "column list option"
  snap_rows :: "row list option"
  snap_sort :: "string list option"
  snap_filters :: "string list option"

text \<open>
  A parsed stream payload: \<open>NonObject\<close> is every value that fails
  \<^verbatim>\<open>payload && typeof payload === "object"\<close>; \<open>msg_rows\<close> is \<open>Some\<close> exactly when
  \<^verbatim>\<open>Array.isArray(p.rows)\<close>, \<open>msg_snapshot\<close> is \<open>Some\<close> exactly when \<^verbatim>\<open>p.snapshot\<close> is truthy.
\<close>

record message =
  msg_type :: "string option"
  msg_snapshot :: "snapshot option"
  msg_rows :: "row list option"

datatype payload = NonObject | Obj message

subsection \<open>The insertion-ordered Map\<close>

text \<open>
  A JavaScript \<^verbatim>\<open>Map\<close> iterates in insertion order; \<^verbatim>\<open>set\<close> on a present key replaces
  the value where the key stands, on a new key appends the entry.
\<close>

fun map_set :: "'k \<Rightarrow> 'v \<Rightarrow> ('k \<times> 'v) list \<Rightarrow> ('k \<times> 'v) list" where
  "map_set k v [] = [(k, v)]"
| "map_set k v ((k', v') # m) =
     (if k' = k then (k', v) # m else (k', v') # map_set k v m)"

definition map_new :: "('k \<times> 'v) list \<Rightarrow> ('k \<times> 'v) list" where
  "map_new entries = foldl (\<lambda>m (k, v). map_set k v m) [] entries"

definition map_values :: "('k \<times> 'v) list \<Rightarrow> 'v list" where
  "map_values m = map snd m"

text \<open>
  The three statements that both \<^verbatim>\<open>applySseMessage\<close> and the capability \<^verbatim>\<open>upsertRows\<close>
  execute: build the map from the current rows, set every incoming row, read the values.
\<close>

definition upsert_merge :: "row list \<Rightarrow> row list \<Rightarrow> row list" where
  "upsert_merge current incoming =
     map_values (foldl (\<lambda>next r. map_set (rid r) r next)
                       (map_new (map (\<lambda>r. (rid r, r)) current)) incoming)"

subsection \<open>Stream messages\<close>

definition applySseMessage :: "model \<Rightarrow> payload \<Rightarrow> model" where
  "applySseMessage m pl =
     (case pl of
        NonObject \<Rightarrow> m
      | Obj p \<Rightarrow>
          (if msg_type p = Some ''setSnapshot'' \<and> msg_snapshot p \<noteq> None then
             (case msg_snapshot p of
                None \<Rightarrow> m
              | Some s \<Rightarrow>
                  m\<lparr>columns := nullish (snap_columns s) (columns m),
                    rows := nullish (snap_rows s) [],
                    sort_order := nullish (snap_sort s) [],
                    filters := nullish (snap_filters s) []\<rparr>)
           else if msg_type p = Some ''setRows'' \<and> msg_rows p \<noteq> None then
             m\<lparr>rows := nullish (msg_rows p) []\<rparr>
           else if msg_type p = Some ''upsertRows'' \<and> msg_rows p \<noteq> None then
             m\<lparr>rows := upsert_merge (rows m) (nullish (msg_rows p) [])\<rparr>
           else m))"

subsection \<open>Configuration\<close>

text \<open>
  \<^verbatim>\<open>NaturalGridSpec\<close> with its \<^verbatim>\<open>ui\<close> options and data source. The fields of the data
  source that only parameterise the network request (method, headers, body, event name,
  credentials) do not reach the model and are left out.
\<close>

record ui_virtualization =
  v_enabled :: "bool option"
  rowHeightPx :: "real option"
  viewportHeightPx :: "real option"
  bufferRows :: "real option"
  columnWidthPx :: "real option"
  columnBuffer :: "real option"
  viewportWidthPx :: "real option"
  rowThreshold :: "real option"
  columnThreshold :: "real option"

record ui_options =
  zebra :: "bool option"
  toolbar_enabled :: "bool option"
  tree_enabled :: "bool option"
  virtualization :: "ui_virtualization option"

record data_source =
  ds_kind :: "string option"
  ds_snapshot :: "snapshot option"
  ds_url :: "string option"
  ds_pollMs :: "real option"

record plugin_ref =
  ref_id :: "string option"
  moduleUrl :: "string option"
  ref_priority :: "real option"

record grid_spec =
  spec_id :: string
  spec_title :: "string option"
  spec_ui :: "ui_options option"
  spec_columns :: "column list option"
  spec_data :: "data_source option"
  spec_plugins :: "plugin_ref list"

subsection \<open>The grid and its capability API\<close>

text \<open>
  The private fields of \<^verbatim>\<open>NaturalGrid\<close> that the model mutations read and write. The
  capability API closes over the element, so each call acts on the configuration and the
  model that are current when it runs.
\<close>

datatype provider = StaticProvider | FetchProvider | SseProvider

record grid =
  config :: "grid_spec option"
  gmodel :: model
  activeDataProvider :: "provider option"
  initDone :: bool

definition fresh_model :: model where
  "fresh_model = \<lparr>columns = [], rows = [], sort_order = [], filters = [],
                   status = Init, error = []\<rparr>"

definition new_grid :: grid where
  "new_grid = \<lparr>config = None, gmodel = fresh_model, activeDataProvider = None,
                initDone = False\<rparr>"




text \<open>The argument is \<open>Some\<close> exactly when \<^verbatim>\<open>Array.isArray(rows)\<close>.\<close>

definition setRows :: "row list option \<Rightarrow> grid \<Rightarrow> grid" where
  "setRows rs g = g\<lparr>gmodel := (gmodel g)\<lparr>rows := nullish rs []\<rparr>\<rparr>"

definition upsertRows :: "row list option \<Rightarrow> grid \<Rightarrow> grid" where
  "upsertRows rs g =
     (case rs of
        None \<Rightarrow> g
      | Some incoming \<Rightarrow>
          g\<lparr>gmodel := (gmodel g)\<lparr>rows := upsert_merge (rows (gmodel g)) incoming\<rparr>\<rparr>)"

subsection \<open>Data providers\<close>

text \<open>
  Each provider is cut at its await points and callbacks into the segments that run
  without interruption. Event dispatch and rendering, which do not write the model
  themselves, are not part of these segments.
\<close>









subsection \<open>Initialization\<close>






subsection \<open>Upgrading a legacy table\<close>

text \<open>
  What \<^verbatim>\<open>gridSpecFromTable\<close> reads of an \<^verbatim>\<open>HTMLTableElement\<close>: the rows of its
  \<^verbatim>\<open>tHead\<close> (if it has one), the rows of each of its \<^verbatim>\<open>tBodies\<close>, of every row the
  attribute \<^verbatim>\<open>data-row-id\<close> and the \<^verbatim>\<open>textContent\<close> of its cells.
\<close>

record html_row =
  data_row_id :: "string option"
  row_cells :: "string list"

record html_table =
  tHead :: "html_row list option"
  tBodies :: "html_row list list"

record table_hints =
  hint_id :: string
  hint_title :: "string option"

definition headCells :: "html_table \<Rightarrow> string list" where
  "headCells t =
     (case tHead t of
        None \<Rightarrow> []
      | Some rs \<Rightarrow> (case rs of [] \<Rightarrow> [] | headRow # _ \<Rightarrow> row_cells headRow))"

definition bodyRows :: "html_table \<Rightarrow> html_row list" where
  "bodyRows t = (case tBodies t of [] \<Rightarrow> [] | b # _ \<Rightarrow> b)"

definition table_columns :: "html_table \<Rightarrow> column list" where
  "table_columns t =
     map (\<lambda>(i, th).
            \<lparr>key = ''c'' @ string_of_nat (i + 1),
             title = trim (if th = [] then ''Col '' @ string_of_nat (i + 1) else th),
             widthPx = None, align = None\<rparr>)
         (enumerate 0 (headCells t))"

text \<open>The loop that fills the \<^verbatim>\<open>cells\<close> object of one row, property by property.\<close>

definition table_row_cells :: "column list \<Rightarrow> string list \<Rightarrow> (string \<times> string) list" where
  "table_row_cells cols tds =
     foldl (\<lambda>cs i. map_set (key (cols ! i)) (trim (if i < length tds then tds ! i else [])) cs)
           [] [0..<length cols]"

definition table_rows :: "string \<Rightarrow> column list \<Rightarrow> html_table \<Rightarrow> row list" where
  "table_rows gridId cols t =
     map (\<lambda>(idx, tr).
            Row (case data_row_id tr of
                   None \<Rightarrow> gridId @ ''__r'' @ string_of_nat (idx + 1)
                 | Some a \<Rightarrow> if a = [] then gridId @ ''__r'' @ string_of_nat (idx + 1) else a)
                (table_row_cells cols (row_cells tr)) [])
         (enumerate 0 (bodyRows t))"

definition gridSpecFromTable :: "html_table \<Rightarrow> table_hints \<Rightarrow> grid_spec" where
  "gridSpecFromTable t hints =
     (let cols = table_columns t;
          rs = table_rows (hint_id hints) cols t
      in \<lparr>spec_id = hint_id hints,
          spec_title = Some (nullish (hint_title hints) []),
          spec_ui = Some \<lparr>zebra = Some False, toolbar_enabled = Some False,
                          tree_enabled = Some False, virtualization = None\<rparr>,
          spec_columns = Some cols,
          spec_data = Some \<lparr>ds_kind = Some ''static'',
                            ds_snapshot = Some \<lparr>snap_columns = Some cols, snap_rows = Some rs,
                                                snap_sort = None, snap_filters = None\<rparr>,
                            ds_url = None, ds_pollMs = None\<rparr>,
          spec_plugins = []\<rparr>)"

subsection \<open>Resolving the configuration\<close>

text \<open>
  What \<^verbatim>\<open>#resolveConfig\<close> reads of the host element and the page: five attributes, the
  parsed inline JSON script (\<open>None\<close> when there is no script or \<^verbatim>\<open>parseJsonScript\<close> yields
  a falsy value), the parsed JSON script found by id in the document, the inline table,
  the global functions by name (\<open>Some None\<close> for a function that throws or returns no
  object), and the identifier that \<^verbatim>\<open>crypto.randomUUID\<close> or the clock would generate.
\<close>

record host =
  attr_data_init :: "string option"
  attr_data_config_id :: "string option"
  attr_data_factory :: "string option"
  attr_data_title :: "string option"
  attr_id :: "string option"
  inline_json :: "grid_spec option"
  document_json :: "string \<Rightarrow> grid_spec option"
  inline_table :: "html_table option"
  global_functions :: "string \<Rightarrow> grid_spec option option"
  generated_id :: string

datatype strategy = InternalJson | ExternalJson | TableUpgrade | Factory

definition tryInternalJson :: "host \<Rightarrow> grid_spec option" where
  "tryInternalJson h = inline_json h"

definition tryExternalJson :: "host \<Rightarrow> grid_spec option" where
  "tryExternalJson h =
     (let cfgId = nullish (attr_data_config_id h) []
      in if cfgId = [] then None else document_json h cfgId)"

definition tryTable :: "host \<Rightarrow> grid_spec option" where
  "tryTable h =
     (case inline_table h of
        None \<Rightarrow> None
      | Some t \<Rightarrow>
          (let i = (case attr_id h of None \<Rightarrow> generated_id h
                    | Some a \<Rightarrow> if a = [] then generated_id h else a);
               ttl = trim (nullish (attr_data_title h) [])
           in Some (gridSpecFromTable t
                      \<lparr>hint_id = i, hint_title = (if ttl = [] then None else Some ttl)\<rparr>)))"

definition tryFactory :: "host \<Rightarrow> grid_spec option" where
  "tryFactory h =
     (let fnName = trim (nullish (attr_data_factory h) [])
      in if fnName = [] then None
         else (case global_functions h fnName of None \<Rightarrow> None | Some out \<Rightarrow> out))"

text \<open>
  A chain \<^verbatim>\<open>a() || b() || ...\<close>: the strategies are called from the left until one yields
  a truthy value. The first component lists the strategies that were called.
\<close>

fun run_chain :: "(strategy \<times> grid_spec option) list \<Rightarrow> strategy list \<times> grid_spec option" where
  "run_chain [] = ([], None)"
| "run_chain ((s, r) # rest) =
     (case r of
        Some c \<Rightarrow> ([s], Some c)
      | None \<Rightarrow> (s # fst (run_chain rest), snd (run_chain rest)))"

definition explicitMode :: "host \<Rightarrow> string" where
  "explicitMode h = toLowerCase (trim (nullish (attr_data_init h) []))"

definition resolveConfig :: "host \<Rightarrow> strategy list \<times> grid_spec option" where
  "resolveConfig h =
     (if explicitMode h = ''json'' then
        run_chain [(InternalJson, tryInternalJson h), (ExternalJson, tryExternalJson h)]
      else if explicitMode h = ''table'' then run_chain [(TableUpgrade, tryTable h)]
      else if explicitMode h = ''factory'' then run_chain [(Factory, tryFactory h)]
      else run_chain [(InternalJson, tryInternalJson h), (ExternalJson, tryExternalJson h),
                      (TableUpgrade, tryTable h), (Factory, tryFactory h)])"

subsection \<open>The style pipeline\<close>

text \<open>
  A constructable style sheet made by \<^verbatim>\<open>makeSheet\<close> is identified with its CSS text. The
  state holds the private style fields of the element, the two facts about its environment
  that the pipeline asks for (is \<^verbatim>\<open>data-unstyled\<close> present, can the shadow root adopt
  sheets), and the result: the adopted sheets and the texts of the injected style elements.
\<close>

datatype sheet = Sheet string

record style_entry =
  se_id :: string
  se_priority :: real
  se_cssText :: string
  se_sheet :: "sheet option"

record style_state =
  unstyled :: bool
  canAdoptSheets :: bool
  pluginStyleSheets :: "style_entry list"
  sheetBase :: "sheet option"
  sheetTheme :: "sheet option"
  sheetUser :: "sheet option"
  userCss :: string
  adoptedStyleSheets :: "sheet list"
  styleFallbackEls :: "string list"

text \<open>
  The base CSS text returned by \<^verbatim>\<open>baseStyles()\<close> and the comparison
  \<^verbatim>\<open>String.prototype.localeCompare\<close> of the platform are parameters.
\<close>

record style_env =
  baseStyles :: string
  localeCompare :: "string \<Rightarrow> string \<Rightarrow> real"

definition shouldInjectStyles :: "style_state \<Rightarrow> bool" where
  "shouldInjectStyles st = (\<not> unstyled st)"

definition themeCssText :: string where
  "themeCssText = []"

definition makeSheetIf :: "string \<Rightarrow> sheet option" where
  "makeSheetIf css = (if css = [] then None else Some (Sheet css))"

definition ensureBaseSheet :: "style_env \<Rightarrow> style_state \<Rightarrow> style_state" where
  "ensureBaseSheet env st =
     (if \<not> shouldInjectStyles st then st\<lparr>sheetBase := None, sheetTheme := None, sheetUser := None\<rparr>
      else if canAdoptSheets st then
        st\<lparr>sheetBase := Some (Sheet (baseStyles env)),
           sheetTheme := makeSheetIf themeCssText,
           sheetUser := makeSheetIf (userCss st)\<rparr>
      else st\<lparr>sheetBase := None, sheetTheme := None, sheetUser := None\<rparr>)"

text \<open>
  \<^verbatim>\<open>Array.prototype.sort\<close> is stable; with the comparator
  \<^verbatim>\<open>(a.priority - b.priority) || a.id.localeCompare(b.id)\<close>.
\<close>

definition style_compare :: "style_env \<Rightarrow> style_entry \<Rightarrow> style_entry \<Rightarrow> real" where
  "style_compare env a b =
     (if se_priority a - se_priority b \<noteq> 0 then se_priority a - se_priority b
      else localeCompare env (se_id a) (se_id b))"

fun insert_by :: "('a \<Rightarrow> 'a \<Rightarrow> real) \<Rightarrow> 'a \<Rightarrow> 'a list \<Rightarrow> 'a list" where
  "insert_by cmp x [] = [x]"
| "insert_by cmp x (y # ys) = (if cmp x y < 0 then x # y # ys else y # insert_by cmp x ys)"

definition sort_by :: "('a \<Rightarrow> 'a \<Rightarrow> real) \<Rightarrow> 'a list \<Rightarrow> 'a list" where
  "sort_by cmp xs = foldl (\<lambda>acc x. insert_by cmp x acc) [] xs"

definition applyStylePipeline :: "style_env \<Rightarrow> style_state \<Rightarrow> style_state" where
  "applyStylePipeline env st0 =
     (let st = st0\<lparr>styleFallbackEls := []\<rparr>
      in if \<not> shouldInjectStyles st then
           (if canAdoptSheets st then st\<lparr>adoptedStyleSheets := []\<rparr> else st)
         else
           (let orderedPluginSheets = sort_by (style_compare env) (pluginStyleSheets st)
            in if canAdoptSheets st then
                 st\<lparr>adoptedStyleSheets :=
                      (case sheetBase st of None \<Rightarrow> [] | Some s \<Rightarrow> [s]) @
                      (case sheetTheme st of None \<Rightarrow> [] | Some s \<Rightarrow> [s]) @
                      concat (map (\<lambda>p. case se_sheet p of None \<Rightarrow> [] | Some s \<Rightarrow> [s])
                                  orderedPluginSheets) @
                      (case sheetUser st of None \<Rightarrow> [] | Some s \<Rightarrow> [s])\<rparr>
               else
                 st\<lparr>styleFallbackEls :=
                      filter (\<lambda>x. x \<noteq> [])
                        ([baseStyles env, themeCssText] @
                         map se_cssText orderedPluginSheets @ [userCss st])\<rparr>))"

text \<open>The part of \<^verbatim>\<open>#render\<close> that acts on the style state.\<close>

definition render_styles :: "style_env \<Rightarrow> style_state \<Rightarrow> style_state" where
  "render_styles env st = applyStylePipeline env (ensureBaseSheet env st)"

definition setThemeCss :: "style_env \<Rightarrow> string \<Rightarrow> style_state \<Rightarrow> style_state" where
  "setThemeCss env cssText st =
     (let st1 = st\<lparr>userCss := cssText\<rparr>;
          st2 = (if canAdoptSheets st1 then st1\<lparr>sheetUser := makeSheetIf (userCss st1)\<rparr> else st1)
      in render_styles env st2)"



text \<open>The CSS texts in force, in order, whichever way they were applied.\<close>

definition applied_styles :: "style_state \<Rightarrow> string list" where
  "applied_styles st =
     (if canAdoptSheets st then map (\<lambda>s. case s of Sheet css \<Rightarrow> css) (adoptedStyleSheets st)
      else styleFallbackEls st)"

subsection \<open>The renderer: flattening and virtualization settings\<close>










section \<open>Vocabulary of the properties\<close>

text \<open>
  One step of the merge loop, the last incoming row that carries a given id, and the ids
  of a list in the order of their first appearance, leaving out those already seen.
\<close>

definition put_row :: "(string \<times> row) list \<Rightarrow> row \<Rightarrow> (string \<times> row) list" where
  "put_row m r = map_set (rid r) r m"

definition last_write :: "row list \<Rightarrow> string \<Rightarrow> row option" where
  "last_write incoming k =
     (case filter (\<lambda>r. rid r = k) incoming of [] \<Rightarrow> None | r # rs \<Rightarrow> Some (last (r # rs)))"

fun first_seen :: "'a set \<Rightarrow> 'a list \<Rightarrow> 'a list" where
  "first_seen seen [] = []"
| "first_seen seen (x # xs) =
     (if x \<in> seen then first_seen seen xs else x # first_seen (insert x seen) xs)"

text \<open>Concrete inputs: a host element without attributes or content, and a minimal spec.\<close>

definition host0 :: host where
  "host0 = \<lparr>attr_data_init = None, attr_data_config_id = None, attr_data_factory = None,
            attr_data_title = None, attr_id = None, inline_json = None,
            document_json = (\<lambda>_. None), inline_table = None,
            global_functions = (\<lambda>_. None), generated_id = ''g1''\<rparr>"

definition spec0 :: grid_spec where
  "spec0 = \<lparr>spec_id = ''patients'', spec_title = None, spec_ui = None, spec_columns = None,
            spec_data = None, spec_plugins = []\<rparr>"

text \<open>A styled grid on a platform with constructable sheets, and a style environment.\<close>

definition style0 :: style_state where
  "style0 = \<lparr>unstyled = False, canAdoptSheets = True, pluginStyleSheets = [],
             sheetBase = None, sheetTheme = None, sheetUser = None, userCss = [],
             adoptedStyleSheets = [], styleFallbackEls = []\<rparr>"

definition env0 :: style_env where
  "env0 = \<lparr>baseStyles = '':host{display:block}'', localeCompare = (\<lambda>a b. 0)\<rparr>"
















section \<open>Properties\<close>

subsection \<open>Merging rows by id\<close>

lemma map_set_keys:
  "map fst (map_set k v m) = (if k \<in> fst ` set m then map fst m else map fst m @ [k])"
proof (induction m)
  case Nil
  then show ?case by simp
next
  case (Cons p m)
  then show ?case by (cases p) (auto simp: image_iff)
qed

lemma map_set_map_of: "map_of (map_set k v m) = (map_of m)(k \<mapsto> v)"
  by (induction m) (auto simp: fun_eq_iff)

lemma map_set_distinct: "distinct (map fst m) \<Longrightarrow> distinct (map fst (map_set k v m))"
  by (simp add: map_set_keys)

lemma put_row_eta: "(\<lambda>m r. map_set (rid r) r m) = put_row"
  by (simp add: put_row_def fun_eq_iff)

lemma map_new_rows: "map_new (map (\<lambda>r. (rid r, r)) rs) = foldl put_row [] rs"
  by (simp add: map_new_def foldl_map put_row_eta)

lemma upsert_merge_foldl: "upsert_merge cur inc = map snd (foldl put_row [] (cur @ inc))"
  by (simp add: upsert_merge_def map_new_rows map_values_def put_row_eta)

lemma foldl_put_keys:
  "map fst (foldl put_row m rs) = map fst m @ first_seen (fst ` set m) (map rid rs)"
proof (induction rs arbitrary: m)
  case Nil
  then show ?case by simp
next
  case (Cons r rs)
  have "set (map fst (put_row m r)) = insert (rid r) (set (map fst m))"
    unfolding put_row_def map_set_keys by auto
  then have s: "fst ` set (put_row m r) = insert (rid r) (fst ` set m)"
    by simp
  have a: "rid r \<in> fst ` set m \<Longrightarrow> insert (rid r) (fst ` set m) = fst ` set m"
    by auto
  show ?case
    using Cons.IH [of "put_row m r"] s a
    by (simp add: put_row_def map_set_keys)
qed

lemma last_write_Cons:
  "last_write (r # rs) k =
     (case last_write rs k of Some x \<Rightarrow> Some x | None \<Rightarrow> if rid r = k then Some r else None)"
  by (auto simp: last_write_def split: list.splits)

lemma foldl_put_map_of:
  "map_of (foldl put_row m rs) k =
     (case last_write rs k of Some x \<Rightarrow> Some x | None \<Rightarrow> map_of m k)"
proof (induction rs arbitrary: m)
  case Nil
  then show ?case by (simp add: last_write_def)
next
  case (Cons r rs)
  show ?case
    using Cons.IH [of "put_row m r"]
    by (auto simp: put_row_def map_set_map_of last_write_Cons split: option.splits)
qed

lemma foldl_put_distinct:
  "distinct (map fst m) \<Longrightarrow> distinct (map fst (foldl put_row m rs))"
  by (induction rs arbitrary: m) (simp_all add: put_row_def map_set_distinct)


lemma map_set_fresh: "k \<notin> fst ` set m \<Longrightarrow> map_set k v m = m @ [(k, v)]"
  by (induction m) auto

lemma foldl_put_distinct_rows:
  "distinct (map rid rs) \<Longrightarrow> foldl put_row [] rs = map (\<lambda>r. (rid r, r)) rs"
proof (induction rs rule: rev_induct)
  case Nil
  then show ?case by simp
next
  case (snoc r rs)
  then have "rid r \<notin> fst ` set (map (\<lambda>r. (rid r, r)) rs)"
    by (auto simp: image_iff)
  with snoc show ?case
    by (simp add: put_row_def map_set_fresh)
qed

lemma last_write_SomeD: "last_write rs k = Some r \<Longrightarrow> rid r = k \<and> r \<in> set rs"
proof -
  assume a: "last_write rs k = Some r"
  then have ne: "filter (\<lambda>r. rid r = k) rs \<noteq> []" and l: "r = last (filter (\<lambda>r. rid r = k) rs)"
    by (auto simp: last_write_def split: list.splits)
  then have "r \<in> set (filter (\<lambda>r. rid r = k) rs)"
    using last_in_set by blast
  then show ?thesis by simp
qed

lemma last_write_None_iff: "last_write rs k = None \<longleftrightarrow> k \<notin> rid ` set rs"
proof -
  have "last_write rs k = None \<longleftrightarrow> filter (\<lambda>r. rid r = k) rs = []"
    by (simp add: last_write_def split: list.splits)
  also have "\<dots> \<longleftrightarrow> k \<notin> rid ` set rs"
    by (auto simp: filter_empty_conv)
  finally show ?thesis .
qed

lemma nth_distinct_map_of:
  "distinct (map fst m) \<Longrightarrow> i < length m \<Longrightarrow> map_of m (fst (m ! i)) = Some (snd (m ! i))"
  by simp

lemma first_seen_fresh: "x \<in> set (first_seen seen xs) \<Longrightarrow> x \<notin> seen"
  by (induction xs arbitrary: seen) (auto split: if_splits)

lemma upsert_merge_distinct:
  assumes d: "distinct (map rid cur)"
  shows "length cur \<le> length (upsert_merge cur inc)"
    and "\<And>i. i < length cur \<Longrightarrow>
           upsert_merge cur inc ! i =
             (case last_write inc (rid (cur ! i)) of None \<Rightarrow> cur ! i | Some r \<Rightarrow> r)"
    and "map rid (drop (length cur) (upsert_merge cur inc)) =
           first_seen (rid ` set cur) (map rid inc)"
    and "\<And>r. r \<in> set (drop (length cur) (upsert_merge cur inc)) \<Longrightarrow>
           last_write inc (rid r) = Some r"
proof -
  define M0 where "M0 = map (\<lambda>r. (rid r, r)) cur"
  define M where "M = foldl put_row M0 inc"
  have res: "upsert_merge cur inc = map snd M"
    by (simp add: upsert_merge_foldl M_def M0_def foldl_put_distinct_rows [OF d])
  have k0: "map fst M0 = map rid cur"
    by (simp add: M0_def comp_def)
  have s0: "fst ` set M0 = rid ` set cur"
    using k0 by (metis list.set_map)
  have keys: "map fst M = map rid cur @ first_seen (rid ` set cur) (map rid inc)"
    unfolding M_def foldl_put_keys k0 s0 ..
  have dM: "distinct (map fst M)"
    unfolding M_def by (rule foldl_put_distinct) (simp add: k0 d)
  have mo: "\<And>k. map_of M k = (case last_write inc k of Some x \<Rightarrow> Some x | None \<Rightarrow> map_of M0 k)"
    unfolding M_def by (rule foldl_put_map_of)
  have len: "length M = length cur + length (first_seen (rid ` set cur) (map rid inc))"
    using keys by (metis length_append length_map)
  show "length cur \<le> length (upsert_merge cur inc)"
    by (simp add: res len)
  show "upsert_merge cur inc ! i =
          (case last_write inc (rid (cur ! i)) of None \<Rightarrow> cur ! i | Some r \<Rightarrow> r)"
    if i: "i < length cur" for i
  proof -
    have iM: "i < length M" using i len by simp
    have "fst (M ! i) = map fst M ! i" using iM by simp
    also have "\<dots> = rid (cur ! i)" using i by (simp add: keys nth_append)
    finally have fk: "fst (M ! i) = rid (cur ! i)" .
    have "map_of M (rid (cur ! i)) = Some (snd (M ! i))"
      using nth_distinct_map_of [OF dM iM] fk by simp
    moreover have "map_of M0 (rid (cur ! i)) = Some (cur ! i)"
      using nth_distinct_map_of [of M0 i] d i by (simp add: M0_def comp_def)
    ultimately have "Some (snd (M ! i)) =
        (case last_write inc (rid (cur ! i)) of Some x \<Rightarrow> Some x | None \<Rightarrow> Some (cur ! i))"
      using mo [of "rid (cur ! i)"] by (simp split: option.splits)
    then show ?thesis
      using iM by (simp add: res split: option.splits)
  qed
  show "map rid (drop (length cur) (upsert_merge cur inc)) =
          first_seen (rid ` set cur) (map rid inc)"
  proof -
    have vk: "\<And>p. p \<in> set M \<Longrightarrow> rid (snd p) = fst p"
    proof -
      fix p assume p: "p \<in> set M"
      then have "(fst p, snd p) \<in> set M" by simp
      then have m: "map_of M (fst p) = Some (snd p)"
        using dM by simp
      show "rid (snd p) = fst p"
      proof (cases "last_write inc (fst p)")
        case None
        then have "map_of M0 (fst p) = Some (snd p)" using m mo [of "fst p"] by simp
        then have "(fst p, snd p) \<in> set M0" by (rule map_of_SomeD)
        then show ?thesis by (auto simp: M0_def)
      next
        case (Some x)
        then have "x = snd p" using m mo [of "fst p"] by simp
        then show ?thesis using last_write_SomeD [OF Some] by simp
      qed
    qed
    have "map rid (map snd M) = map fst M"
      using vk by (simp add: comp_def)
    then have "map rid (drop (length cur) (map snd M)) = drop (length cur) (map fst M)"
      by (metis drop_map)
    then show ?thesis by (simp add: res keys)
  qed
  then have kd: "map rid (drop (length cur) (upsert_merge cur inc)) =
          first_seen (rid ` set cur) (map rid inc)" .
  show "last_write inc (rid r) = Some r"
    if r: "r \<in> set (drop (length cur) (upsert_merge cur inc))" for r
  proof -
    have "rid r \<in> set (map rid (drop (length cur) (upsert_merge cur inc)))"
      using r by simp
    then have "rid r \<in> set (first_seen (rid ` set cur) (map rid inc))"
      by (simp only: kd)
    then have nk: "rid r \<notin> rid ` set cur"
      by (rule first_seen_fresh)
    then have m0: "map_of M0 (rid r) = None"
      by (simp add: map_of_eq_None_iff s0)
    have "r \<in> set (map snd M)" using r res by (metis in_set_dropD)
    then obtain k where kr: "(k, r) \<in> set M" by auto
    then have m: "map_of M k = Some r" using dM by simp
    show ?thesis
    proof (cases "last_write inc k")
      case None
      then have "map_of M0 k = Some r" using m mo [of k] by simp
      then have "(k, r) \<in> set M0" by (rule map_of_SomeD)
      then have "rid r \<in> rid ` set cur" by (auto simp: M0_def)
      with nk show ?thesis by simp
    next
      case (Some x)
      then have "x = r" using m mo [of k] by simp
      with Some last_write_SomeD [OF Some] show ?thesis by simp
    qed
  qed
qed


text \<open>
  C9 (as amended). When the ids of the current rows are pairwise distinct, \<^verbatim>\<open>upsertRows\<close>
  merges by id with the last write winning: no row is lost; a current row whose id no
  incoming row carries stays unchanged at its position; a current row whose id is carried
  by incoming rows is replaced, at its position, by the last of them; the rows that follow
  are the incoming rows with new ids, in the order in which those ids first appear, each
  id with its last row. The stream message \<^verbatim>\<open>upsertRows\<close> yields the same rows as the
  capability call, and a call with a value that is no array changes nothing.
\<close>

theorem upsertRows_merge_by_id:
  assumes "distinct (map rid (rows (gmodel g)))"
  shows "length (rows (gmodel g)) \<le> length (rows (gmodel (upsertRows (Some incoming) g))) \<and>
         (\<forall>i<length (rows (gmodel g)).
            rid (rows (gmodel g) ! i) \<notin> rid ` set incoming \<longrightarrow>
            rows (gmodel (upsertRows (Some incoming) g)) ! i = rows (gmodel g) ! i) \<and>
         (\<forall>i<length (rows (gmodel g)). \<forall>r.
            last_write incoming (rid (rows (gmodel g) ! i)) = Some r \<longrightarrow>
            rows (gmodel (upsertRows (Some incoming) g)) ! i = r) \<and>
         map rid (drop (length (rows (gmodel g))) (rows (gmodel (upsertRows (Some incoming) g)))) =
           first_seen (rid ` set (rows (gmodel g))) (map rid incoming) \<and>
         (\<forall>r \<in> set (drop (length (rows (gmodel g)))
                         (rows (gmodel (upsertRows (Some incoming) g)))).
            last_write incoming (rid r) = Some r) \<and>
         rows (applySseMessage (gmodel g)
                 (Obj \<lparr>msg_type = Some ''upsertRows'', msg_snapshot = sn,
                       msg_rows = Some incoming\<rparr>)) =
           rows (gmodel (upsertRows (Some incoming) g)) \<and>
         upsertRows None g = g"
proof -
  let ?cur = "rows (gmodel g)"
  have r: "rows (gmodel (upsertRows (Some incoming) g)) = upsert_merge ?cur incoming"
    by (simp add: upsertRows_def)
  have s: "rows (applySseMessage (gmodel g)
                 (Obj \<lparr>msg_type = Some ''upsertRows'', msg_snapshot = sn,
                       msg_rows = Some incoming\<rparr>)) = upsert_merge ?cur incoming"
    by (simp add: applySseMessage_def nullish_def)
  note m = upsert_merge_distinct [OF assms, where inc = incoming]
  have a: "\<forall>i<length ?cur. rid (?cur ! i) \<notin> rid ` set incoming \<longrightarrow>
             upsert_merge ?cur incoming ! i = ?cur ! i"
    by (simp add: m(2) last_write_None_iff [symmetric])
  have b: "\<forall>i<length ?cur. \<forall>r. last_write incoming (rid (?cur ! i)) = Some r \<longrightarrow>
             upsert_merge ?cur incoming ! i = r"
    using m(2) by simp
  have c: "\<forall>r \<in> set (drop (length ?cur) (upsert_merge ?cur incoming)).
             last_write incoming (rid r) = Some r"
    using m(4) by blast
  have n: "upsertRows None g = g"
    by (simp add: upsertRows_def)
  show ?thesis
    unfolding r s using m(1) a b m(3) c n by blast
qed

text \<open>
  The scenario of the specification: upserting the row with id 2 into the single row with
  id 1 leaves row 1 as it was and yields both ids.
\<close>

theorem upsertRows_merge_by_id_witness:
  "distinct (map rid [Row ''1'' [(''name'', ''Ada'')] []]) \<and>
   rows (gmodel (upsertRows (Some [Row ''2'' [(''name'', ''Bo'')] []])
           (new_grid\<lparr>gmodel := fresh_model\<lparr>rows := [Row ''1'' [(''name'', ''Ada'')] []]\<rparr>\<rparr>))) ! 0 =
     Row ''1'' [(''name'', ''Ada'')] [] \<and>
   map rid (rows (gmodel (upsertRows (Some [Row ''2'' [(''name'', ''Bo'')] []])
           (new_grid\<lparr>gmodel := fresh_model\<lparr>rows := [Row ''1'' [(''name'', ''Ada'')] []]\<rparr>\<rparr>)))) =
     [''1'', ''2'']"
  using upsertRows_merge_by_id
    [of "new_grid\<lparr>gmodel := fresh_model\<lparr>rows := [Row ''1'' [(''name'', ''Ada'')] []]\<rparr>\<rparr>"
        "[Row ''2'' [(''name'', ''Bo'')] []]"]
  by (simp add: upsertRows_def upsert_merge_def map_new_def map_values_def)

text \<open>
  C9 as stated fails for a row list with a repeated id. The map built from the current
  rows keeps one entry per id, at the position of the first row and with the value of the
  last: upserting a row with id 2 into two rows that both have id 1 changes the row at
  position 0, although no incoming row carries its id, and moves id 2 to position 1.
\<close>

theorem upsertRows_duplicate_ids_counterexample:
  "rows (gmodel (upsertRows (Some [Row ''2'' [] []])
           (new_grid\<lparr>gmodel := fresh_model\<lparr>rows :=
              [Row ''1'' [(''v'', ''a'')] [], Row ''1'' [(''v'', ''b'')] []]\<rparr>\<rparr>))) =
     [Row ''1'' [(''v'', ''b'')] [], Row ''2'' [] []]"
  by (simp add: upsertRows_def upsert_merge_def map_new_def map_values_def)

subsection \<open>Activation of virtualization\<close>


subsection \<open>Floors of the virtualization settings\<close>




subsection \<open>Forced resolution modes\<close>

lemma run_chain_single: "run_chain [(s, r)] = ([s], r)"
  by (simp split: option.splits)

text \<open>
  C2 (as amended). The forced modes \<^verbatim>\<open>table\<close> and \<^verbatim>\<open>factory\<close> call exactly one strategy
  and return what it yields, a failure included. The forced mode \<^verbatim>\<open>json\<close> calls the
  inline JSON strategy and, only when that yields no spec, the external JSON strategy; it
  never falls back to the table or the factory strategy.
\<close>

theorem resolveConfig_forced_mode:
  "(explicitMode h = ''table'' \<longrightarrow> resolveConfig h = ([TableUpgrade], tryTable h)) \<and>
   (explicitMode h = ''factory'' \<longrightarrow> resolveConfig h = ([Factory], tryFactory h)) \<and>
   (explicitMode h = ''json'' \<longrightarrow>
      resolveConfig h =
        (case tryInternalJson h of
           Some c \<Rightarrow> ([InternalJson], Some c)
         | None \<Rightarrow> ([InternalJson, ExternalJson], tryExternalJson h)))"
  by (simp add: resolveConfig_def run_chain_single split: option.splits)

text \<open>
  With an inline JSON spec present: the forced modes \<^verbatim>\<open>table\<close> and \<^verbatim>\<open>factory\<close> fail
  without looking at it, the forced mode \<^verbatim>\<open>json\<close> returns it.
\<close>

theorem resolveConfig_forced_mode_witness:
  "explicitMode (host0\<lparr>attr_data_init := Some ''table'', inline_json := Some spec0\<rparr>) =
     ''table'' \<and>
   resolveConfig (host0\<lparr>attr_data_init := Some ''table'',
       inline_json := Some spec0\<rparr>) = ([TableUpgrade], None) \<and>
   explicitMode (host0\<lparr>attr_data_init := Some ''factory'', inline_json := Some spec0\<rparr>) =
     ''factory'' \<and>
   resolveConfig (host0\<lparr>attr_data_init := Some ''factory'',
       inline_json := Some spec0\<rparr>) = ([Factory], None) \<and>
   explicitMode (host0\<lparr>attr_data_init := Some ''json'', inline_json := Some spec0\<rparr>) =
     ''json'' \<and>
   resolveConfig (host0\<lparr>attr_data_init := Some ''json'',
       inline_json := Some spec0\<rparr>) = ([InternalJson], Some spec0)"
  using resolveConfig_forced_mode [of "host0\<lparr>attr_data_init := Some ''table'', inline_json := Some spec0\<rparr>"]
    resolveConfig_forced_mode [of "host0\<lparr>attr_data_init := Some ''factory'', inline_json := Some spec0\<rparr>"]
    resolveConfig_forced_mode [of "host0\<lparr>attr_data_init := Some ''json'', inline_json := Some spec0\<rparr>"]
  by (simp add: explicitMode_def host0_def nullish_def trim_def is_ws_def toLowerCase_def
      lower_char_def Let_def tryTable_def tryFactory_def tryInternalJson_def)

text \<open>
  C2 as stated fails for the forced mode \<^verbatim>\<open>json\<close>: without an inline script, the
  resolution goes on to the script named by \<^verbatim>\<open>data-config-id\<close> and returns its spec, so
  two strategies have run.
\<close>

theorem resolveConfig_json_fallback_counterexample:
  "resolveConfig (host0\<lparr>attr_data_init := Some ''json'', attr_data_config_id := Some ''cfg'',
       document_json := (\<lambda>i. if i = ''cfg'' then Some spec0 else None)\<rparr>) =
     ([InternalJson, ExternalJson], Some spec0)"
  by (simp add: resolveConfig_def explicitMode_def host0_def nullish_def trim_def is_ws_def
      toLowerCase_def lower_char_def Let_def tryInternalJson_def tryExternalJson_def)

subsection \<open>The style pipeline without default styling\<close>

lemma render_styles_unstyled:
  "unstyled st \<Longrightarrow> applied_styles (render_styles env st) = []"
  by (simp add: render_styles_def applyStylePipeline_def ensureBaseSheet_def
      shouldInjectStyles_def applied_styles_def Let_def)

lemma render_styles_user_last:
  assumes "\<not> unstyled st" "userCss st \<noteq> []"
  shows "last (applied_styles (render_styles env st)) = userCss st"
  using assms
  by (simp add: render_styles_def applyStylePipeline_def ensureBaseSheet_def
      shouldInjectStyles_def applied_styles_def Let_def makeSheetIf_def themeCssText_def)

text \<open>
  C5 (as amended). With \<^verbatim>\<open>data-unstyled\<close> present the pipeline applies no rule at all:
  neither the base rules, the theme slot and the plugin fragments, nor the caller's rules.
  \<^verbatim>\<open>setThemeCss\<close> only records the caller's text; it is applied, last in the order, by
  the first render after \<^verbatim>\<open>data-unstyled\<close> is removed.
\<close>

theorem unstyled_applies_nothing:
  "unstyled st \<longrightarrow>
     applied_styles (render_styles env st) = [] \<and>
     applied_styles (setThemeCss env css st) = [] \<and>
     userCss (setThemeCss env css st) = css \<and>
     (css \<noteq> [] \<longrightarrow>
        last (applied_styles (render_styles env ((setThemeCss env css st)\<lparr>unstyled := False\<rparr>))) = css)"
proof
  assume u: "unstyled st"
  have k: "unstyled (setThemeCss env css st)" "userCss (setThemeCss env css st) = css"
    using u
    by (simp_all add: setThemeCss_def render_styles_def applyStylePipeline_def
        ensureBaseSheet_def shouldInjectStyles_def Let_def)
  have a: "applied_styles (setThemeCss env css st) = []"
    using u
    by (simp add: setThemeCss_def render_styles_def applyStylePipeline_def
        ensureBaseSheet_def shouldInjectStyles_def applied_styles_def Let_def)
  have b: "css \<noteq> [] \<longrightarrow>
        last (applied_styles (render_styles env ((setThemeCss env css st)\<lparr>unstyled := False\<rparr>))) = css"
    using render_styles_user_last [of "(setThemeCss env css st)\<lparr>unstyled := False\<rparr>" env] k(2)
    by simp
  show "applied_styles (render_styles env st) = [] \<and>
     applied_styles (setThemeCss env css st) = [] \<and>
     userCss (setThemeCss env css st) = css \<and>
     (css \<noteq> [] \<longrightarrow>
        last (applied_styles (render_styles env ((setThemeCss env css st)\<lparr>unstyled := False\<rparr>))) = css)"
    using render_styles_unstyled [OF u] a k(2) b by blast
qed

text \<open>An unstyled grid to which the caller gives one rule.\<close>

theorem unstyled_applies_nothing_witness:
  "unstyled (style0\<lparr>unstyled := True\<rparr>) \<and>
   applied_styles (setThemeCss env0 ''td{color:red}'' (style0\<lparr>unstyled := True\<rparr>)) = [] \<and>
   userCss (setThemeCss env0 ''td{color:red}'' (style0\<lparr>unstyled := True\<rparr>)) = ''td{color:red}''"
  using unstyled_applies_nothing [of "style0\<lparr>unstyled := True\<rparr>" env0 "''td{color:red}''"]
  by (simp add: style0_def)

text \<open>
  C5 as stated fails: on an unstyled grid the caller's rule is not in force after
  \<^verbatim>\<open>setThemeCss\<close>, with constructable sheets or without; on the styled grid it follows
  the base rules.
\<close>

theorem unstyled_user_css_counterexample:
  "applied_styles (setThemeCss env0 ''td{color:red}'' (style0\<lparr>unstyled := True\<rparr>)) = [] \<and>
   applied_styles (setThemeCss env0 ''td{color:red}''
       (style0\<lparr>unstyled := True, canAdoptSheets := False\<rparr>)) = [] \<and>
   applied_styles (setThemeCss env0 ''td{color:red}'' style0) =
     ['':host{display:block}'', ''td{color:red}'']"
  by (simp add: style0_def env0_def setThemeCss_def render_styles_def applyStylePipeline_def
      ensureBaseSheet_def shouldInjectStyles_def applied_styles_def Let_def makeSheetIf_def
      themeCssText_def sort_by_def)

subsection \<open>Registering and disposing of style fragments\<close>






subsection \<open>Stream messages and the status\<close>







subsection \<open>Status transitions\<close>




subsection \<open>Continuations across a reinitialization\<close>



subsection \<open>Upgrading a legacy table\<close>




















end
